theory Spec2Isabelle
  imports Main "HOL-Library.Word"
begin

section \<open>Data model of \<^verbatim>\<open>main.py\<close>\<close>

text \<open>
  The repository declares eight SQLAlchemy tables and three methods on \<^verbatim>\<open>Player\<close>
  (\<^verbatim>\<open>login\<close>, \<^verbatim>\<open>add_boost\<close>, \<^verbatim>\<open>give_prizes_for_level\<close>) plus the function
  \<^verbatim>\<open>export_player_levels_to_csv\<close>. Every mapped class becomes a record with the
  columns of the class; a nullable column is an \<open>option\<close>.

  Identifiers are \<^verbatim>\<open>uuid.UUID\<close> values, that is, 128-bit numbers that are only ever
  compared for equality.
\<close>

type_synonym uuid = "128 word"

text \<open>
  A naive \<^verbatim>\<open>datetime\<close> as returned by \<^verbatim>\<open>datetime.utcnow()\<close>: the calendar day
  (as its proleptic ordinal, so that comparing two \<^verbatim>\<open>date()\<close> values is comparing
  the ordinals) and the microsecond within that day. A \<^verbatim>\<open>datetime\<close> object is
  always truthy in Python 3, so \<^verbatim>\<open>not self.first_login\<close> and
  \<^verbatim>\<open>bool(pl.completed)\<close> only test for \<^verbatim>\<open>None\<close>.
\<close>

record datetime =
  ordinal :: nat
  micro :: nat

definition date :: "datetime \<Rightarrow> nat" where
  "date d = ordinal d"

record player =
  player_id :: uuid
  first_login :: "datetime option"
  last_login :: "datetime option"
  points :: int

datatype BoostType = DOUBLE_POINTS | SPEED | SHIELD

record boost =
  boost_id :: uuid
  boost_type :: BoostType
  description :: string

record player_boost =
  pb_player_id :: uuid
  pb_boost_id :: uuid
  amount :: int
  created_at :: datetime

record level =
  level_id :: uuid
  level_title :: string
  level_order :: int

record prize =
  prize_id :: uuid
  prize_title :: string

record player_level =
  pl_player_id :: uuid
  pl_level_id :: uuid
  completed :: "datetime option"
  score :: int

record level_prize =
  lp_level_id :: uuid
  lp_prize_id :: uuid

record player_prize =
  pp_player_id :: uuid
  pp_prize_id :: uuid
  received_at :: datetime

section \<open>\<^verbatim>\<open>Player.login\<close>\<close>

text \<open>
  \<^verbatim>\<open>
  def login(self):
      now = datetime.utcnow()
      if not self.first_login:
          self.first_login = now
      if not self.last_login or self.last_login.date() < now.date():
          self.points += 10
      self.last_login = now
  \<close>
  The one reading of the clock is the argument \<open>now\<close>; the method mutates the
  player object, the model returns the updated player. The player is a row of
  \<^verbatim>\<open>players\<close>: \<open>points\<close> is an integer (the column is \<^verbatim>\<open>NOT NULL\<close> with default
  0), and Python integers do not overflow.
\<close>

definition login :: "datetime \<Rightarrow> player \<Rightarrow> player" where
  "login now self =
     (let self1 = (case first_login self of
                     None \<Rightarrow> self\<lparr>first_login := Some now\<rparr>
                   | Some _ \<Rightarrow> self);
          self2 = (case last_login self1 of
                     None \<Rightarrow> self1\<lparr>points := points self1 + 10\<rparr>
                   | Some l \<Rightarrow> if date l < date now
                              then self1\<lparr>points := points self1 + 10\<rparr>
                              else self1)
      in self2\<lparr>last_login := Some now\<rparr>)"

section \<open>The session as a store of rows\<close>

text \<open>
  The methods work through a SQLAlchemy \<^verbatim>\<open>Session\<close>. The model of the session is
  the list of rows of every table, in insertion order: \<^verbatim>\<open>session.add\<close> appends a
  row, \<^verbatim>\<open>session.get\<close> looks a row up by its primary key, a \<^verbatim>\<open>select\<close> scans
  the lists. Two things about the library are taken as given:
  \<^item> the session flushes pending rows before it runs a query (\<^verbatim>\<open>autoflush\<close>, the
    default of \<^verbatim>\<open>sessionmaker\<close>), so rows added earlier are visible to later
    look-ups and are not kept apart from the rows already written;
  \<^item> the source never orders a query. The rows of \<^verbatim>\<open>level_prizes\<close> of one level,
    which the relationship \<^verbatim>\<open>Level.prizes\<close> loads and the join of
    \<^verbatim>\<open>give_prizes_for_level\<close> runs through, come back in the order of the primary
    key \<^verbatim>\<open>(level_id, prize_id)\<close>, as the SQLite engine of the repository's test and
    example returns them from the index of that key, not in the order of insertion.
    An id is stored as its 32 hexadecimal digits, so the order of two ids is the order
    of the 128-bit numbers. The order in which the export query yields its rows is
    left open by the source, and no property below depends on it.
  What the database itself would reject when rows are written (a foreign key, where
  the database enforces them, or a \<^verbatim>\<open>CHECK\<close> constraint) is not part of the methods
  and is stated as a predicate on stores where a property needs it. In particular
  \<^verbatim>\<open>CheckConstraint("amount >= 0")\<close> makes the flush of a row with a negative amount
  raise \<^verbatim>\<open>IntegrityError\<close>; the model of \<^verbatim>\<open>add_boost\<close> has no such branch, and its
  result is the result of the method for amounts and stores that satisfy the
  constraint, where no flush raises.
\<close>

record store =
  players :: "player list"
  boosts :: "boost list"
  player_boosts :: "player_boost list"
  levels :: "level list"
  prizes :: "prize list"
  player_levels :: "player_level list"
  level_prizes :: "level_prize list"
  player_prizes :: "player_prize list"

definition empty_store :: store where
  "empty_store = \<lparr>players = [], boosts = [], player_boosts = [], levels = [], prizes = [],
     player_levels = [], level_prizes = [], player_prizes = []\<rparr>"

definition pb_key :: "player_boost \<Rightarrow> uuid \<times> uuid" where
  "pb_key r = (pb_player_id r, pb_boost_id r)"

definition pl_key :: "player_level \<Rightarrow> uuid \<times> uuid" where
  "pl_key r = (pl_player_id r, pl_level_id r)"

definition lp_key :: "level_prize \<Rightarrow> uuid \<times> uuid" where
  "lp_key r = (lp_level_id r, lp_prize_id r)"

definition pp_key :: "player_prize \<Rightarrow> uuid \<times> uuid" where
  "pp_key r = (pp_player_id r, pp_prize_id r)"

text \<open>\<^verbatim>\<open>session.get(PlayerBoost, (player_id, boost_id))\<close> and its siblings.\<close>

definition get_player_boost :: "store \<Rightarrow> uuid \<times> uuid \<Rightarrow> player_boost option" where
  "get_player_boost s k = find (\<lambda>r. pb_key r = k) (player_boosts s)"

definition get_player_level :: "store \<Rightarrow> uuid \<times> uuid \<Rightarrow> player_level option" where
  "get_player_level s k = find (\<lambda>r. pl_key r = k) (player_levels s)"

definition get_level :: "store \<Rightarrow> uuid \<Rightarrow> level option" where
  "get_level s i = find (\<lambda>r. level_id r = i) (levels s)"

definition get_prize :: "store \<Rightarrow> uuid \<Rightarrow> prize option" where
  "get_prize s i = find (\<lambda>r. prize_id r = i) (prizes s)"

text \<open>
  Primary keys are unique in every table: the database refuses a second row with the
  key of an existing one, whatever else it enforces.
\<close>

definition primary_keys_unique :: "store \<Rightarrow> bool" where
  "primary_keys_unique s \<longleftrightarrow>
     distinct (map player_id (players s)) \<and>
     distinct (map boost_id (boosts s)) \<and>
     distinct (map pb_key (player_boosts s)) \<and>
     distinct (map level_id (levels s)) \<and>
     distinct (map prize_id (prizes s)) \<and>
     distinct (map pl_key (player_levels s)) \<and>
     distinct (map lp_key (level_prizes s)) \<and>
     distinct (map pp_key (player_prizes s))"

text \<open>
  The foreign key of \<^verbatim>\<open>LevelPrize.prize_id\<close>: every association names a prize of the
  catalogue. SQLite, which the repository's test and example use, does not enforce
  foreign keys unless asked to, so this is a property of a store, not of all stores.
\<close>

definition level_prizes_reference_prizes :: "store \<Rightarrow> bool" where
  "level_prizes_reference_prizes s \<longleftrightarrow>
     list_all (\<lambda>lp. list_ex (\<lambda>pr. prize_id pr = lp_prize_id lp) (prizes s)) (level_prizes s)"

text \<open>
  The \<^verbatim>\<open>LevelPrize\<close> rows of one level, as \<^verbatim>\<open>level.prizes\<close> loads them: in the order
  of the primary key, which for one level is the order of \<open>prize_id\<close>.
\<close>

definition prizes_of_level :: "store \<Rightarrow> uuid \<Rightarrow> level_prize list" where
  "prizes_of_level s lid =
     sort_key lp_prize_id (filter (\<lambda>lp. lp_level_id lp = lid) (level_prizes s))"

section \<open>\<^verbatim>\<open>Player.add_boost\<close>\<close>

text \<open>
  \<^verbatim>\<open>
  def add_boost(self, session, boost_id, amount=1):
      pb = session.get(PlayerBoost, (self.id, boost_id))
      if pb:
          pb.amount += amount
      else:
          session.add(PlayerBoost(player_id=self.id, boost_id=boost_id,
                                  amount=amount, created_at=datetime.utcnow()))
  \<close>
  A mapped object is always truthy, so \<^verbatim>\<open>if pb\<close> tests for \<^verbatim>\<open>None\<close>. The object
  that \<^verbatim>\<open>get\<close> returns is the row that is mutated: \<open>bump_amount\<close> changes the first
  row with the key, the one \<open>find\<close> returns. The method has no \<^verbatim>\<open>raise\<close> and never
  reads the \<^verbatim>\<open>boosts\<close> table, so the model is a total function to the new store.
\<close>

fun bump_amount :: "uuid \<times> uuid \<Rightarrow> int \<Rightarrow> player_boost list \<Rightarrow> player_boost list" where
  "bump_amount k amt [] = []"
| "bump_amount k amt (r # rs) =
     (if pb_key r = k then r\<lparr>amount := amount r + amt\<rparr> # rs else r # bump_amount k amt rs)"

definition add_boost :: "store \<Rightarrow> uuid \<Rightarrow> uuid \<Rightarrow> int \<Rightarrow> datetime \<Rightarrow> store" where
  "add_boost s self_id b amt now =
     (case get_player_boost s (self_id, b) of
        Some pb \<Rightarrow> s\<lparr>player_boosts := bump_amount (self_id, b) amt (player_boosts s)\<rparr>
      | None \<Rightarrow> s\<lparr>player_boosts := player_boosts s @
                    [\<lparr>pb_player_id = self_id, pb_boost_id = b, amount = amt, created_at = now\<rparr>]\<rparr>)"

section \<open>\<^verbatim>\<open>Player.give_prizes_for_level\<close>\<close>

text \<open>
  \<^verbatim>\<open>
  def give_prizes_for_level(self, session, level_id):
      pl = session.get(PlayerLevel, (self.id, level_id))
      if not pl or not pl.completed:
          return
      prizes = session.scalars(
          select(Prize).join(LevelPrize).where(LevelPrize.level_id == level_id)).all()
      for prize in prizes:
          already = session.scalar(exists().where(
              PlayerPrize.player_id == self.id,
              PlayerPrize.prize_id == prize.id).select())
          if not already:
              session.add(PlayerPrize(player_id=self.id, prize_id=prize.id,
                                      received_at=datetime.utcnow()))
  \<close>
  The \<^verbatim>\<open>select\<close> is the inner join of \<^verbatim>\<open>prizes\<close> with \<^verbatim>\<open>level_prizes\<close> on the
  prize id, restricted to the level: one \<^verbatim>\<open>Prize\<close> per matching pair of rows, in the
  order of the \<^verbatim>\<open>level_prizes\<close> rows of the level.
  The clock is read once for every row that is created: \<open>clk k\<close> is the \<open>k\<close>-th
  reading during the call. The existence check of the loop is made against the rows
  of \<^verbatim>\<open>player_prizes\<close> as they are at that iteration; the prizes of one
  \<^verbatim>\<open>select\<close> have distinct ids when primary keys are unique, so that a row added
  earlier in the same call is never the one looked for.
\<close>

definition prizes_for_level :: "store \<Rightarrow> uuid \<Rightarrow> prize list" where
  "prizes_for_level s lid =
     concat (map (\<lambda>lp. filter (\<lambda>pr. prize_id pr = lp_prize_id lp) (prizes s))
                 (prizes_of_level s lid))"

definition already :: "player_prize list \<Rightarrow> uuid \<Rightarrow> uuid \<Rightarrow> bool" where
  "already pps pid prid = list_ex (\<lambda>pp. pp_player_id pp = pid \<and> pp_prize_id pp = prid) pps"

fun grant :: "uuid \<Rightarrow> (nat \<Rightarrow> datetime) \<Rightarrow> nat \<Rightarrow> prize list \<Rightarrow> player_prize list
              \<Rightarrow> player_prize list" where
  "grant pid clk k [] pps = pps"
| "grant pid clk k (pr # prs) pps =
     (if already pps pid (prize_id pr) then grant pid clk k prs pps
      else grant pid clk (Suc k) prs
             (pps @ [\<lparr>pp_player_id = pid, pp_prize_id = prize_id pr, received_at = clk k\<rparr>]))"

definition give_prizes_for_level :: "store \<Rightarrow> uuid \<Rightarrow> uuid \<Rightarrow> (nat \<Rightarrow> datetime) \<Rightarrow> store" where
  "give_prizes_for_level s self_id lid clk =
     (case get_player_level s (self_id, lid) of
        None \<Rightarrow> s
      | Some pl \<Rightarrow>
          (case completed pl of
             None \<Rightarrow> s
           | Some _ \<Rightarrow> s\<lparr>player_prizes :=
                          grant self_id clk 0 (prizes_for_level s lid) (player_prizes s)\<rparr>))"


text \<open>Calling the method \<open>n\<close> times in a row, with any clock.\<close>

fun give_prizes_repeatedly :: "nat \<Rightarrow> store \<Rightarrow> uuid \<Rightarrow> uuid \<Rightarrow> (nat \<Rightarrow> datetime) \<Rightarrow> store" where
  "give_prizes_repeatedly 0 s self_id lid clk = s"
| "give_prizes_repeatedly (Suc n) s self_id lid clk =
     give_prizes_repeatedly n (give_prizes_for_level s self_id lid clk) self_id lid clk"

section \<open>Sequences of operations on a store\<close>

text \<open>
  \<^verbatim>\<open>login\<close> is a method of the player object; on the store it changes the row of
  that player.
\<close>

definition login_player :: "store \<Rightarrow> uuid \<Rightarrow> datetime \<Rightarrow> store" where
  "login_player s pid now =
     s\<lparr>players := map (\<lambda>p. if player_id p = pid then login now p else p) (players s)\<rparr>"

datatype op =
    Login uuid datetime
  | AddBoost uuid uuid int datetime
  | GivePrizes uuid uuid "nat \<Rightarrow> datetime"

fun apply_op :: "store \<Rightarrow> op \<Rightarrow> store" where
  "apply_op s (Login pid now) = login_player s pid now"
| "apply_op s (AddBoost pid b amt now) = add_boost s pid b amt now"
| "apply_op s (GivePrizes pid lid clk) = give_prizes_for_level s pid lid clk"

definition run :: "store \<Rightarrow> op list \<Rightarrow> store" where
  "run s ops = foldl apply_op s ops"

fun amount_nonnegative :: "op \<Rightarrow> bool" where
  "amount_nonnegative (AddBoost pid b amt now) = (0 \<le> amt)"
| "amount_nonnegative _ = True"

section \<open>\<^verbatim>\<open>export_player_levels_to_csv\<close>\<close>

text \<open>
  \<^verbatim>\<open>
  writer.writerow(["player_id", "level_title", "completed", "prize_title"])
  query = session.query(PlayerLevel).join(PlayerLevel.level)
                 .outerjoin(Level.prizes).outerjoin(LevelPrize.prize)
  for pl in query.yield_per(1000):
      level_title = pl.level.title
      completed = bool(pl.completed)
      prize_title = pl.level.prizes[0].prize.title if pl.level.prizes else ""
      writer.writerow([pl.player_id, level_title, completed, prize_title])
  \<close>
  The query selects \<^verbatim>\<open>PlayerLevel\<close> from the inner join of \<^verbatim>\<open>player_levels\<close> with
  \<^verbatim>\<open>levels\<close>, left-outer-joined with \<^verbatim>\<open>level_prizes\<close> and then with \<^verbatim>\<open>prizes\<close>.
  A left outer join keeps a row with no partner once, and a row with several
  partners once per partner. The source imports \<^verbatim>\<open>UUID\<close> from \<^verbatim>\<open>sqlalchemy\<close> and
  calls \<^verbatim>\<open>session.scalars\<close>, so it runs on SQLAlchemy 2; there a \<^verbatim>\<open>Query\<close> with
  \<^verbatim>\<open>yield_per\<close> does not de-duplicate the entities it yields, and the loop body runs
  once for every row of the join.

  \<^verbatim>\<open>pl.level\<close> and \<^verbatim>\<open>.prize\<close> are many-to-one loads by primary key, \<^verbatim>\<open>None\<close> when
  the row is missing, so that reading \<^verbatim>\<open>.title\<close> raises \<^verbatim>\<open>AttributeError\<close>;
  \<^verbatim>\<open>pl.level.prizes\<close> is the list of \<^verbatim>\<open>LevelPrize\<close> rows of the level, in the order
  of the primary key, so that \<^verbatim>\<open>prizes[0]\<close> is the association with the least
  \<open>prize_id\<close>.
\<close>

datatype error = AttributeError

record export_row =
  row_player_id :: uuid
  row_level_title :: string
  row_completed :: bool
  row_prize_title :: string

definition csv_header :: "string list" where
  "csv_header = [''player_id'', ''level_title'', ''completed'', ''prize_title'']"

definition outerjoin :: "'a list \<Rightarrow> 'a option list" where
  "outerjoin xs = (case xs of [] \<Rightarrow> [None] | _ # _ \<Rightarrow> map Some xs)"

definition joined_prizes :: "store \<Rightarrow> level_prize option \<Rightarrow> prize option list" where
  "joined_prizes s lpo =
     outerjoin (case lpo of
                  None \<Rightarrow> []
                | Some lp \<Rightarrow> filter (\<lambda>pr. prize_id pr = lp_prize_id lp) (prizes s))"

definition export_query :: "store \<Rightarrow> player_level list" where
  "export_query s =
     concat (map (\<lambda>pl.
       concat (map (\<lambda>lv.
         concat (map (\<lambda>lpo. map (\<lambda>pro. pl) (joined_prizes s lpo))
                     (outerjoin (prizes_of_level s (level_id lv)))))
         (filter (\<lambda>lv. level_id lv = pl_level_id pl) (levels s))))
       (player_levels s))"

definition export_row_of :: "store \<Rightarrow> player_level \<Rightarrow> error + export_row" where
  "export_row_of s pl =
     (case get_level s (pl_level_id pl) of
        None \<Rightarrow> Inl AttributeError
      | Some lv \<Rightarrow>
          (case prizes_of_level s (level_id lv) of
             [] \<Rightarrow> Inr \<lparr>row_player_id = pl_player_id pl, row_level_title = level_title lv,
                       row_completed = (completed pl \<noteq> None), row_prize_title = []\<rparr>
           | lp # _ \<Rightarrow>
               (case get_prize s (lp_prize_id lp) of
                  None \<Rightarrow> Inl AttributeError
                | Some pr \<Rightarrow>
                    Inr \<lparr>row_player_id = pl_player_id pl, row_level_title = level_title lv,
                         row_completed = (completed pl \<noteq> None),
                         row_prize_title = prize_title pr\<rparr>)))"

fun write_rows :: "store \<Rightarrow> player_level list \<Rightarrow> error + export_row list" where
  "write_rows s [] = Inr []"
| "write_rows s (pl # pls) =
     (case export_row_of s pl of
        Inl e \<Rightarrow> Inl e
      | Inr r \<Rightarrow> (case write_rows s pls of Inl e \<Rightarrow> Inl e | Inr rs \<Rightarrow> Inr (r # rs)))"

text \<open>
  The data rows handed to \<^verbatim>\<open>writer.writerow\<close> after the header, when the function
  returns; \<open>Inl\<close> when the loop raises.
\<close>

definition export_player_levels_to_csv :: "store \<Rightarrow> error + export_row list" where
  "export_player_levels_to_csv s = write_rows s (export_query s)"

section \<open>Observations on a store\<close>

text \<open>
  The rows of \<^verbatim>\<open>player_boosts\<close> with a given key, the amount a player holds of a
  boost (0 when there is no row), and the constraints the tables declare:
  \<^verbatim>\<open>CheckConstraint("amount >= 0")\<close>, \<^verbatim>\<open>CheckConstraint("score >= 0")\<close> and the
  composite primary key of \<^verbatim>\<open>player_boosts\<close>.
\<close>

definition boost_rows :: "store \<Rightarrow> uuid \<Rightarrow> uuid \<Rightarrow> player_boost list" where
  "boost_rows s p b = filter (\<lambda>r. pb_key r = (p, b)) (player_boosts s)"

definition held_amount :: "store \<Rightarrow> uuid \<Rightarrow> uuid \<Rightarrow> int" where
  "held_amount s p b = (case get_player_boost s (p, b) of None \<Rightarrow> 0 | Some pb \<Rightarrow> amount pb)"

definition in_catalogue :: "store \<Rightarrow> uuid \<Rightarrow> bool" where
  "in_catalogue s b = list_ex (\<lambda>bo. boost_id bo = b) (boosts s)"

definition constraints_hold :: "store \<Rightarrow> bool" where
  "constraints_hold s \<longleftrightarrow>
     list_all (\<lambda>pb. 0 \<le> amount pb) (player_boosts s) \<and>
     list_all (\<lambda>pl. 0 \<le> score pl) (player_levels s) \<and>
     distinct (map pb_key (player_boosts s))"

definition level_exists :: "store \<Rightarrow> player_level \<Rightarrow> bool" where
  "level_exists s pl = list_ex (\<lambda>lv. level_id lv = pl_level_id pl) (levels s)"

text \<open>
  The number of rows the export query yields for one \<^verbatim>\<open>PlayerLevel\<close> row: none
  when its level is missing (inner join), else one per associated prize and one when
  there is none (outer join).
\<close>

definition rows_per_player_level :: "store \<Rightarrow> player_level \<Rightarrow> nat" where
  "rows_per_player_level s pl =
     (if level_exists s pl
      then max 1 (length (filter (\<lambda>lp. lp_level_id lp = pl_level_id pl) (level_prizes s)))
      else 0)"

text \<open>No \<^verbatim>\<open>PlayerLevel\<close> row is for a level with more than one associated prize.\<close>

definition at_most_one_prize_per_level :: "store \<Rightarrow> bool" where
  "at_most_one_prize_per_level s \<longleftrightarrow>
     list_all (\<lambda>pl. length (filter (\<lambda>lp. lp_level_id lp = pl_level_id pl) (level_prizes s)) \<le> 1)
              (player_levels s)"

section \<open>A concrete store\<close>

text \<open>
  The scenario of the specification: player 1, the boost 2 of type \<open>SPEED\<close>, level 3
  with the prizes 4 and 5 attached in this order, and the player's completed row for
  the level with score 100.
\<close>

definition t0 :: datetime where
  "t0 = \<lparr>ordinal = 739000, micro = 0\<rparr>"

definition clk0 :: "nat \<Rightarrow> datetime" where
  "clk0 k = \<lparr>ordinal = 739000, micro = Suc k\<rparr>"

definition scenario :: store where
  "scenario =
     \<lparr>players = [\<lparr>player_id = 1, first_login = None, last_login = None, points = 0\<rparr>],
      boosts = [\<lparr>boost_id = 2, boost_type = SPEED, description = ''speed''\<rparr>],
      player_boosts = [],
      levels = [\<lparr>level_id = 3, level_title = ''L'', level_order = 1\<rparr>],
      prizes = [\<lparr>prize_id = 4, prize_title = ''X''\<rparr>, \<lparr>prize_id = 5, prize_title = ''Y''\<rparr>],
      player_levels = [\<lparr>pl_player_id = 1, pl_level_id = 3, completed = Some t0, score = 100\<rparr>],
      level_prizes = [\<lparr>lp_level_id = 3, lp_prize_id = 4\<rparr>, \<lparr>lp_level_id = 3, lp_prize_id = 5\<rparr>],
      player_prizes = []\<rparr>"

text \<open>The same store with the level not completed.\<close>

definition scenario_incomplete :: store where
  "scenario_incomplete =
     scenario\<lparr>player_levels := [\<lparr>pl_player_id = 1, pl_level_id = 3, completed = None, score = 0\<rparr>]\<rparr>"

text \<open>A store where the single prize of the level has the empty title.\<close>

definition scenario_untitled :: store where
  "scenario_untitled =
     scenario\<lparr>prizes := [\<lparr>prize_id = 4, prize_title = []\<rparr>],
              level_prizes := [\<lparr>lp_level_id = 3, lp_prize_id = 4\<rparr>]\<rparr>"

text \<open>
  A store where the player's row is for level 99, which is not in \<^verbatim>\<open>levels\<close> (the
  foreign key is not enforced).
\<close>

definition scenario_dangling :: store where
  "scenario_dangling =
     scenario\<lparr>player_levels := [\<lparr>pl_player_id = 1, pl_level_id = 99, completed = None, score = 0\<rparr>]\<rparr>"

text \<open>
  The scenario with the two associations inserted in the other order: prize 5 first,
  then prize 4.
\<close>

definition scenario_reversed :: store where
  "scenario_reversed =
     scenario\<lparr>level_prizes := [\<lparr>lp_level_id = 3, lp_prize_id = 5\<rparr>,
                               \<lparr>lp_level_id = 3, lp_prize_id = 4\<rparr>]\<rparr>"

text \<open>A store where the player already holds 5 of the boost.\<close>

definition scenario_boosted :: store where
  "scenario_boosted =
     scenario\<lparr>player_boosts := [\<lparr>pb_player_id = 1, pb_boost_id = 2, amount = 5, created_at = t0\<rparr>]\<rparr>"

text \<open>A sequence of calls on the scenario.\<close>

definition session_ops :: "op list" where
  "session_ops = [Login 1 t0, AddBoost 1 2 1 t0, AddBoost 1 2 0 (clk0 0), GivePrizes 1 3 clk0,
                  AddBoost 1 9 4 (clk0 5), Login 1 (clk0 6)]"

text \<open>A player who last logged in on the day before \<open>t0\<close>, and a new player.\<close>

definition yesterday :: datetime where
  "yesterday = \<lparr>ordinal = 738999, micro = 7\<rparr>"

definition returning_player :: player where
  "returning_player =
     \<lparr>player_id = 1, first_login = Some yesterday, last_login = Some yesterday, points = 30\<rparr>"

definition new_player :: player where
  "new_player = \<lparr>player_id = 1, first_login = None, last_login = None, points = 0\<rparr>"

section \<open>Properties of \<^verbatim>\<open>login\<close>\<close>

lemma login_last_login: "last_login (login now p) = Some now"
  by (simp add: login_def Let_def split: option.splits)

lemma login_first_login:
  "first_login (login now p) = (case first_login p of None \<Rightarrow> Some now | Some t \<Rightarrow> Some t)"
  by (simp add: login_def Let_def split: option.splits)

lemma login_player_id: "player_id (login now p) = player_id p"
  by (simp add: login_def Let_def split: option.splits)

lemma login_points:
  "points (login now p) =
     (case last_login p of
        None \<Rightarrow> points p + 10
      | Some l \<Rightarrow> if date l < date now then points p + 10 else points p)"
  by (cases "first_login p"; cases "last_login p") (simp_all add: login_def Let_def)

lemma login_same_day_points:
  "date now2 = date now1 \<Longrightarrow> points (login now2 (login now1 p)) = points (login now1 p)"
  by (simp add: login_points [of now2] login_last_login)

text \<open>
  Claim C3. When the first of two logins falls on a new UTC day (the player's
  \<open>last_login\<close> is unset or lies on an earlier calendar day) and the second login
  falls on the same calendar day as the first, the first call adds exactly the daily
  bonus of 10, the second call adds nothing, and so the two calls together raise
  \<open>points\<close> by exactly 10, not 20.
\<close>

theorem login_twice_same_day_adds_10:
  assumes "last_login p = None \<or> (\<exists>l. last_login p = Some l \<and> date l < date now1)"
    and "date now2 = date now1"
  shows "points (login now1 p) = points p + 10
       \<and> points (login now2 (login now1 p)) = points (login now1 p)
       \<and> points (login now2 (login now1 p)) = points p + 10"
proof -
  from assms(1) have first: "points (login now1 p) = points p + 10"
    by (auto simp: login_points)
  from assms(2) have second: "points (login now2 (login now1 p)) = points (login now1 p)"
    by (rule login_same_day_points)
  from first second show ?thesis by simp
qed

theorem login_twice_same_day_adds_10_witness:
  "last_login returning_player = Some yesterday \<and> date yesterday < date t0
   \<and> date (clk0 4) = date t0
   \<and> points returning_player = 30
   \<and> points (login t0 returning_player) = 40
   \<and> points (login (clk0 4) (login t0 returning_player)) = 40"
proof -
  have h1: "last_login returning_player = None
            \<or> (\<exists>l. last_login returning_player = Some l \<and> date l < date t0)"
    by (simp add: returning_player_def yesterday_def t0_def date_def)
  have h2: "date (clk0 4) = date t0"
    by (simp add: clk0_def t0_def date_def)
  from login_twice_same_day_adds_10 [OF h1 h2] h2 show ?thesis
    by (simp add: returning_player_def yesterday_def t0_def date_def)
qed

text \<open>
  Claim C9. A second login on the same UTC calendar day as the first changes nothing
  but \<open>last_login\<close>: the player after it is the player before it with \<open>last_login\<close>
  replaced, so \<open>points\<close>, \<open>first_login\<close> and the id are as they were. A login sets
  \<open>first_login\<close> exactly when it was unset and keeps it otherwise.
\<close>

theorem login_repeat_same_day_changes_only_last_login:
  assumes "date now2 = date now1"
  shows "login now2 (login now1 p) = (login now1 p)\<lparr>last_login := Some now2\<rparr>
       \<and> points (login now2 (login now1 p)) = points (login now1 p)
       \<and> first_login (login now2 (login now1 p)) = first_login (login now1 p)
       \<and> first_login (login now1 p) =
           (case first_login p of None \<Rightarrow> Some now1 | Some t \<Rightarrow> Some t)"
proof -
  have eq: "login now2 (login now1 p) = (login now1 p)\<lparr>last_login := Some now2\<rparr>"
    using assms
    by (cases "first_login p"; cases "last_login p") (simp_all add: login_def Let_def)
  have "points (login now2 (login now1 p)) = points (login now1 p)"
    by (simp add: eq)
  moreover have "first_login (login now2 (login now1 p)) = first_login (login now1 p)"
    by (simp add: eq)
  ultimately show ?thesis
    using eq by (simp add: login_first_login)
qed

theorem login_repeat_same_day_changes_only_last_login_witness:
  "date (clk0 4) = date t0
   \<and> login t0 new_player =
       \<lparr>player_id = 1, first_login = Some t0, last_login = Some t0, points = 10\<rparr>
   \<and> login (clk0 4) (login t0 new_player) =
       \<lparr>player_id = 1, first_login = Some t0, last_login = Some (clk0 4), points = 10\<rparr>"
proof -
  have h: "date (clk0 4) = date t0"
    by (simp add: clk0_def t0_def date_def)
  have first: "login t0 new_player =
      \<lparr>player_id = 1, first_login = Some t0, last_login = Some t0, points = 10\<rparr>"
    by (simp add: login_def new_player_def)
  from login_repeat_same_day_changes_only_last_login [OF h, of new_player] h first
  show ?thesis by simp
qed

section \<open>Properties of \<^verbatim>\<open>add_boost\<close>\<close>

lemma find_snoc:
  "find P (xs @ [y]) =
     (case find P xs of None \<Rightarrow> (if P y then Some y else None) | Some x \<Rightarrow> Some x)"
  by (induction xs) auto

lemma find_None_filter: "find P rs = None \<Longrightarrow> filter P rs = []"
  by (auto simp: find_None_iff filter_empty_conv)

lemma filter_key_le1:
  "distinct (map f xs) \<Longrightarrow>
   filter (\<lambda>x. f x = k) xs = [] \<or> (\<exists>y. filter (\<lambda>x. f x = k) xs = [y])"
proof (induction xs)
  case Nil
  then show ?case by simp
next
  case (Cons x xs)
  show ?case
  proof (cases "f x = k")
    case True
    with Cons.prems have "k \<notin> f ` set xs" by auto
    then have "filter (\<lambda>x. f x = k) xs = []" by (auto simp: filter_empty_conv)
    with True show ?thesis by simp
  next
    case False
    with Cons show ?thesis by simp
  qed
qed

lemma find_Some_filter:
  assumes "distinct (map f rs)" and "find (\<lambda>r. f r = k) rs = Some x"
  shows "filter (\<lambda>r. f r = k) rs = [x]"
proof -
  from assms(2) have "filter (\<lambda>r. f r = k) rs \<noteq> []"
    by (auto simp: find_Some_iff filter_empty_conv)
  with filter_key_le1 [OF assms(1), of k] obtain y where y: "filter (\<lambda>r. f r = k) rs = [y]"
    by blast
  have "find (\<lambda>r. f r = k) rs = (case filter (\<lambda>r. f r = k) rs of [] \<Rightarrow> None | z # _ \<Rightarrow> Some z)"
    by (induction rs) auto
  with assms(2) y show ?thesis by simp
qed

lemma find_bump_amount:
  "find (\<lambda>r. pb_key r = k) (bump_amount k amt rs) =
     map_option (\<lambda>r. r\<lparr>amount := amount r + amt\<rparr>) (find (\<lambda>r. pb_key r = k) rs)"
  by (induction rs) (auto simp: pb_key_def)

lemma map_key_bump_amount: "map pb_key (bump_amount k amt rs) = map pb_key rs"
  by (induction rs) (auto simp: pb_key_def)

lemma filter_bump_amount:
  "distinct (map pb_key rs) \<Longrightarrow>
   filter (\<lambda>r. pb_key r = k) (bump_amount k amt rs) =
     map (\<lambda>r. r\<lparr>amount := amount r + amt\<rparr>) (filter (\<lambda>r. pb_key r = k) rs)"
proof (induction rs)
  case Nil
  then show ?case by simp
next
  case (Cons r rs)
  show ?case
  proof (cases "pb_key r = k")
    case True
    with Cons.prems have "k \<notin> pb_key ` set rs" by auto
    then have "filter (\<lambda>r. pb_key r = k) rs = []"
      by (auto simp: filter_empty_conv)
    with True show ?thesis by (simp add: pb_key_def)
  next
    case False
    with Cons show ?thesis by simp
  qed
qed

lemma add_boost_rows:
  assumes "distinct (map pb_key (player_boosts s))"
  shows "map amount (boost_rows (add_boost s p b amt now) p b) = [held_amount s p b + amt]"
proof (cases "get_player_boost s (p, b)")
  case None
  then have "filter (\<lambda>r. pb_key r = (p, b)) (player_boosts s) = []"
    unfolding get_player_boost_def by (rule find_None_filter)
  with None show ?thesis
    by (simp add: boost_rows_def add_boost_def held_amount_def pb_key_def)
next
  case (Some pb)
  then have "filter (\<lambda>r. pb_key r = (p, b)) (player_boosts s) = [pb]"
    unfolding get_player_boost_def using assms by (intro find_Some_filter)
  with Some assms show ?thesis
    by (simp add: boost_rows_def add_boost_def held_amount_def filter_bump_amount)
qed

lemma add_boost_distinct:
  "distinct (map pb_key (player_boosts s)) \<Longrightarrow>
   distinct (map pb_key (player_boosts (add_boost s p b amt now)))"
  by (auto simp: add_boost_def map_key_bump_amount get_player_boost_def find_None_iff
      pb_key_def split: option.splits)

lemma held_amount_add_boost:
  "held_amount (add_boost s p b amt now) p b = held_amount s p b + amt"
proof (cases "get_player_boost s (p, b)")
  case None
  then show ?thesis
    by (simp add: held_amount_def add_boost_def get_player_boost_def find_snoc pb_key_def)
next
  case (Some pb)
  then show ?thesis
    by (simp add: held_amount_def add_boost_def get_player_boost_def find_bump_amount)
qed

lemma bump_amount_nonneg:
  "list_all (\<lambda>pb. 0 \<le> amount pb) rs \<Longrightarrow> 0 \<le> amt \<Longrightarrow>
   list_all (\<lambda>pb. 0 \<le> amount pb) (bump_amount k amt rs)"
  by (induction rs) auto

lemma add_boost_constraints:
  assumes "constraints_hold s" and "0 \<le> amt"
  shows "constraints_hold (add_boost s p b amt now)"
proof -
  from assms(1) have a: "list_all (\<lambda>pb. 0 \<le> amount pb) (player_boosts s)"
    and l: "list_all (\<lambda>pl. 0 \<le> score pl) (player_levels s)"
    and d: "distinct (map pb_key (player_boosts s))"
    by (simp_all add: constraints_hold_def)
  have "list_all (\<lambda>pb. 0 \<le> amount pb) (player_boosts (add_boost s p b amt now))"
    using a assms(2) by (simp add: add_boost_def bump_amount_nonneg split: option.splits)
  moreover have "player_levels (add_boost s p b amt now) = player_levels s"
    by (simp add: add_boost_def split: option.splits)
  moreover note add_boost_distinct [OF d, of p b amt now]
  ultimately show ?thesis
    using l by (simp add: constraints_hold_def)
qed

text \<open>
  Claim C2, as stated, fails: when the player already holds 5 of the boost, adding the
  non-negative amounts 1 and then 2 leaves the one row with amount 8, not 1 + 2.
\<close>

theorem add_boost_twice_counterexample:
  "map amount (boost_rows (add_boost (add_boost scenario_boosted 1 2 1 t0) 1 2 2 (clk0 0)) 1 2)
     \<noteq> [1 + 2]"
  by (simp add: scenario_boosted_def scenario_def add_boost_def get_player_boost_def
      boost_rows_def pb_key_def)

text \<open>
  Claim C2, amended. Let the store satisfy the declared constraints (amounts and
  scores non-negative, at most one \<^verbatim>\<open>PlayerBoost\<close> row per key), as every stored state
  does, and let \<open>amount1\<close> and \<open>amount2\<close> be non-negative. Then
  \<^verbatim>\<open>add_boost(p, b, amount1)\<close> followed by \<^verbatim>\<open>add_boost(p, b, amount2)\<close> leaves exactly
  one row for \<open>(p, b)\<close>, and its amount is the amount held before plus
  \<open>amount1 + amount2\<close>; it is \<open>amount1 + amount2\<close> when the player had no row for the
  boost before the two calls. The store after each call satisfies the constraints
  again, so that no flush is refused.
\<close>

theorem add_boost_twice_accumulates:
  assumes "constraints_hold s" and "0 \<le> amount1" and "0 \<le> amount2"
  shows "map amount (boost_rows (add_boost (add_boost s p b amount1 t1) p b amount2 t2) p b)
           = [held_amount s p b + amount1 + amount2]
       \<and> (get_player_boost s (p, b) = None \<longrightarrow>
            map amount (boost_rows (add_boost (add_boost s p b amount1 t1) p b amount2 t2) p b)
              = [amount1 + amount2])
       \<and> constraints_hold (add_boost s p b amount1 t1)
       \<and> constraints_hold (add_boost (add_boost s p b amount1 t1) p b amount2 t2)"
proof -
  have c1: "constraints_hold (add_boost s p b amount1 t1)"
    using assms(1,2) by (rule add_boost_constraints)
  then have c2: "constraints_hold (add_boost (add_boost s p b amount1 t1) p b amount2 t2)"
    using assms(3) by (rule add_boost_constraints)
  from c1 have d: "distinct (map pb_key (player_boosts (add_boost s p b amount1 t1)))"
    by (simp add: constraints_hold_def)
  have "map amount (boost_rows (add_boost (add_boost s p b amount1 t1) p b amount2 t2) p b)
          = [held_amount s p b + amount1 + amount2]"
    by (simp add: add_boost_rows [OF d] held_amount_add_boost)
  with c1 c2 show ?thesis
    by (simp add: held_amount_def)
qed

theorem add_boost_twice_accumulates_witness:
  "constraints_hold scenario_boosted
   \<and> held_amount scenario_boosted 1 2 = 5
   \<and> map amount (boost_rows (add_boost (add_boost scenario_boosted 1 2 1 t0) 1 2 2 (clk0 0)) 1 2)
       = [8]
   \<and> constraints_hold scenario
   \<and> get_player_boost scenario (1, 2) = None
   \<and> map amount (boost_rows (add_boost (add_boost scenario 1 2 3 t0) 1 2 2 (clk0 0)) 1 2) = [5]"
proof -
  have h1: "constraints_hold scenario_boosted"
    by (simp add: constraints_hold_def scenario_boosted_def scenario_def)
  have a1: "held_amount scenario_boosted 1 2 = 5"
    by (simp add: held_amount_def get_player_boost_def scenario_boosted_def scenario_def pb_key_def)
  have h2: "constraints_hold scenario"
    by (simp add: constraints_hold_def scenario_def)
  have a2: "get_player_boost scenario (1, 2) = None"
    by (simp add: get_player_boost_def scenario_def)
  have z2: "held_amount scenario 1 2 = 0"
    by (simp add: held_amount_def a2)
  have p1: "(0::int) \<le> 1" and p2: "(0::int) \<le> 2" and p3: "(0::int) \<le> 3"
    by simp_all
  from add_boost_twice_accumulates [OF h1 p1 p2, of 1 2 t0 "clk0 0"]
    add_boost_twice_accumulates [OF h2 p3 p2, of 1 2 t0 "clk0 0"] h1 h2 a1 a2 z2
  show ?thesis by simp
qed

text \<open>
  Claim C5, as stated, fails: boost 9 is not in the catalogue of the scenario, and
  \<^verbatim>\<open>add_boost\<close> with it returns and leaves a new \<^verbatim>\<open>PlayerBoost\<close> row behind.
\<close>

theorem add_boost_unknown_boost_counterexample:
  "\<not> in_catalogue scenario 9
   \<and> player_boosts (add_boost scenario 1 9 3 t0) =
       [\<lparr>pb_player_id = 1, pb_boost_id = 9, amount = 3, created_at = t0\<rparr>]
   \<and> player_boosts (add_boost scenario 1 9 3 t0) \<noteq> player_boosts scenario"
  by (simp add: in_catalogue_def scenario_def add_boost_def get_player_boost_def)

text \<open>
  Claim C5, amended. \<^verbatim>\<open>add_boost\<close> never reads the \<^verbatim>\<open>Boost\<close> catalogue and raises
  nothing of its own. For a \<open>boost_id\<close> that is not in the catalogue it returns and does
  the same additive upsert as for any other: the amount the player holds grows by
  \<open>amount\<close>, a player without a row for the boost gets the new row
  \<open>(p, boost_id, amount)\<close> appended, the catalogue is as before, and the result does not
  depend on what the catalogue contains.
\<close>

theorem add_boost_unknown_boost_upserts:
  assumes "\<not> in_catalogue s b"
  shows "held_amount (add_boost s p b amt now) p b = held_amount s p b + amt
       \<and> (get_player_boost s (p, b) = None \<longrightarrow>
            player_boosts (add_boost s p b amt now) =
              player_boosts s @
                [\<lparr>pb_player_id = p, pb_boost_id = b, amount = amt, created_at = now\<rparr>])
       \<and> boosts (add_boost s p b amt now) = boosts s
       \<and> add_boost (s\<lparr>boosts := bs\<rparr>) p b amt now = (add_boost s p b amt now)\<lparr>boosts := bs\<rparr>"
proof -
  have "boosts (add_boost s p b amt now) = boosts s"
    by (simp add: add_boost_def split: option.splits)
  moreover have "add_boost (s\<lparr>boosts := bs\<rparr>) p b amt now = (add_boost s p b amt now)\<lparr>boosts := bs\<rparr>"
    by (simp add: add_boost_def get_player_boost_def split: option.splits)
  moreover have "get_player_boost s (p, b) = None \<longrightarrow>
            player_boosts (add_boost s p b amt now) =
              player_boosts s @
                [\<lparr>pb_player_id = p, pb_boost_id = b, amount = amt, created_at = now\<rparr>]"
    by (simp add: add_boost_def)
  ultimately show ?thesis
    by (simp add: held_amount_add_boost)
qed

theorem add_boost_unknown_boost_upserts_witness:
  "\<not> in_catalogue scenario 9
   \<and> get_player_boost scenario (1, 9) = None
   \<and> held_amount scenario 1 9 = 0
   \<and> held_amount (add_boost scenario 1 9 3 t0) 1 9 = 3
   \<and> player_boosts (add_boost scenario 1 9 3 t0) =
       player_boosts scenario @
         [\<lparr>pb_player_id = 1, pb_boost_id = 9, amount = 3, created_at = t0\<rparr>]"
proof -
  have h: "\<not> in_catalogue scenario 9"
    by (simp add: in_catalogue_def scenario_def)
  have n: "get_player_boost scenario (1, 9) = None"
    by (simp add: get_player_boost_def scenario_def)
  have z: "held_amount scenario 1 9 = 0"
    by (simp add: held_amount_def n)
  from add_boost_unknown_boost_upserts [OF h, of 1 3 t0] h n z show ?thesis
    by simp
qed

section \<open>Properties of \<^verbatim>\<open>give_prizes_for_level\<close>\<close>









lemma prizes_of_level_set:
  "set (prizes_of_level s lid) = {lp \<in> set (level_prizes s). lp_level_id lp = lid}"
  by (auto simp: prizes_of_level_def)

lemma prizes_of_level_length:
  "length (prizes_of_level s lid) =
     length (filter (\<lambda>lp. lp_level_id lp = lid) (level_prizes s))"
  by (simp add: prizes_of_level_def)





lemma give_prizes_tables:
  "player_levels (give_prizes_for_level s p l clk) = player_levels s
   \<and> level_prizes (give_prizes_for_level s p l clk) = level_prizes s
   \<and> prizes (give_prizes_for_level s p l clk) = prizes s
   \<and> player_boosts (give_prizes_for_level s p l clk) = player_boosts s"
  by (simp add: give_prizes_for_level_def split: option.splits)





text \<open>
  Claim C6. When the player's \<^verbatim>\<open>PlayerLevel\<close> row for the level has \<open>completed\<close>
  unset, \<^verbatim>\<open>give_prizes_for_level\<close> returns normally with the store as it was, so no
  prize is granted, and this stays so however many times it is called.
\<close>

theorem give_prizes_incomplete_level_is_noop:
  assumes "get_player_level s (p, l) = Some pl" and "completed pl = None"
  shows "give_prizes_for_level s p l clk = s
       \<and> give_prizes_repeatedly n s p l clk = s
       \<and> player_prizes (give_prizes_repeatedly n s p l clk) = player_prizes s"
proof -
  from assms have one: "give_prizes_for_level s p l clk = s"
    by (simp add: give_prizes_for_level_def)
  have "give_prizes_repeatedly n s p l clk = s"
    by (induction n) (simp_all add: one)
  with one show ?thesis by simp
qed

theorem give_prizes_incomplete_level_is_noop_witness:
  "get_player_level scenario_incomplete (1, 3) =
     Some \<lparr>pl_player_id = 1, pl_level_id = 3, completed = None, score = 0\<rparr>
   \<and> give_prizes_for_level scenario_incomplete 1 3 clk0 = scenario_incomplete
   \<and> give_prizes_repeatedly 3 scenario_incomplete 1 3 clk0 = scenario_incomplete
   \<and> player_prizes (give_prizes_repeatedly 3 scenario_incomplete 1 3 clk0) = []"
proof -
  have h1: "get_player_level scenario_incomplete (1, 3) =
     Some \<lparr>pl_player_id = 1, pl_level_id = 3, completed = None, score = 0\<rparr>"
    by (simp add: get_player_level_def scenario_incomplete_def scenario_def pl_key_def)
  have h2: "completed \<lparr>pl_player_id = 1, pl_level_id = 3, completed = None, score = 0\<rparr> = None"
    by simp
  have e: "player_prizes scenario_incomplete = []"
    by (simp add: scenario_incomplete_def scenario_def)
  from give_prizes_incomplete_level_is_noop [OF h1 h2, of clk0 3] h1 e show ?thesis
    by simp
qed

text \<open>
  Claim C10. When the player has no \<^verbatim>\<open>PlayerLevel\<close> row for the \<open>level_id\<close>, whether
  or not any \<^verbatim>\<open>Level\<close> row has that id, \<^verbatim>\<open>give_prizes_for_level\<close> returns normally
  (the method has no \<^verbatim>\<open>raise\<close>; the \<^verbatim>\<open>levels\<close> table is never read) and the whole store
  is unchanged.
\<close>

theorem give_prizes_without_player_level_is_noop:
  assumes "get_player_level s (p, l) = None"
  shows "give_prizes_for_level s p l clk = s"
  using assms by (simp add: give_prizes_for_level_def)

theorem give_prizes_without_player_level_is_noop_witness:
  "get_level scenario 99 = None
   \<and> get_player_level scenario (1, 99) = None
   \<and> give_prizes_for_level scenario 1 99 clk0 = scenario"
proof -
  have l: "get_level scenario 99 = None"
    by (simp add: get_level_def scenario_def)
  have h: "get_player_level scenario (1, 99) = None"
    by (simp add: get_player_level_def scenario_def pl_key_def)
  from give_prizes_without_player_level_is_noop [OF h, of clk0] l h show ?thesis
    by simp
qed

section \<open>The declared constraints are preserved\<close>

lemma login_player_constraints:
  "constraints_hold s \<Longrightarrow> constraints_hold (login_player s p now)"
  by (simp add: constraints_hold_def login_player_def)

lemma give_prizes_constraints:
  "constraints_hold s \<Longrightarrow> constraints_hold (give_prizes_for_level s p l clk)"
  by (simp add: constraints_hold_def give_prizes_tables)

lemma apply_op_constraints:
  "constraints_hold s \<Longrightarrow> amount_nonnegative x \<Longrightarrow> constraints_hold (apply_op s x)"
  by (cases x)
    (simp_all add: login_player_constraints add_boost_constraints give_prizes_constraints)

text \<open>
  Claim C8. Starting from a store that satisfies the declared constraints (every
  \<^verbatim>\<open>PlayerBoost.amount\<close> and \<^verbatim>\<open>PlayerLevel.score\<close> non-negative, at most one
  \<^verbatim>\<open>PlayerBoost\<close> row per key), every store reached by any sequence of \<^verbatim>\<open>login\<close>,
  \<^verbatim>\<open>add_boost\<close> with a non-negative amount and \<^verbatim>\<open>give_prizes_for_level\<close> satisfies
  them again: amounts and scores are non-negative and no (player, boost) pair has more
  than one row.
\<close>

theorem constraints_hold_in_reachable_stores:
  assumes "constraints_hold s" and "list_all amount_nonnegative ops"
  shows "constraints_hold (run s ops)
       \<and> (\<forall>pb \<in> set (player_boosts (run s ops)). 0 \<le> amount pb)
       \<and> (\<forall>pl \<in> set (player_levels (run s ops)). 0 \<le> score pl)
       \<and> (\<forall>p b. length (boost_rows (run s ops) p b) \<le> 1)"
proof -
  from assms have c: "constraints_hold (run s ops)"
    unfolding run_def
  proof (induction ops arbitrary: s)
    case Nil
    then show ?case by simp
  next
    case (Cons x ops)
    from Cons.prems have "constraints_hold (apply_op s x)" and "list_all amount_nonnegative ops"
      by (simp_all add: apply_op_constraints)
    then have "constraints_hold (foldl apply_op (apply_op s x) ops)"
      by (rule Cons.IH)
    then show ?case by simp
  qed
  have "length (boost_rows (run s ops) p b) \<le> 1" for p b
  proof -
    from c have "distinct (map pb_key (player_boosts (run s ops)))"
      by (simp add: constraints_hold_def)
    from filter_key_le1 [OF this, of "(p, b)"] show ?thesis
      by (auto simp: boost_rows_def)
  qed
  with c show ?thesis
    by (simp add: constraints_hold_def list_all_iff)
qed

theorem constraints_hold_in_reachable_stores_witness:
  "constraints_hold scenario
   \<and> list_all amount_nonnegative session_ops
   \<and> constraints_hold (run scenario session_ops)
   \<and> map amount (player_boosts (run scenario session_ops)) = [1, 4]"
proof -
  have h1: "constraints_hold scenario"
    by (simp add: constraints_hold_def scenario_def)
  have h2: "list_all amount_nonnegative session_ops"
    by (simp add: session_ops_def)
  have "player_boosts (run scenario session_ops) = 
     [\<lparr>pb_player_id = 1, pb_boost_id = 2, amount = 1, created_at = t0\<rparr>,
      \<lparr>pb_player_id = 1, pb_boost_id = 9, amount = 4, created_at = clk0 5\<rparr>]"
    by (simp add: run_def session_ops_def login_player_def add_boost_def get_player_boost_def
        give_prizes_tables pb_key_def scenario_def)
  with constraints_hold_in_reachable_stores [OF h1 h2] h1 h2 show ?thesis
    by simp
qed

section \<open>Properties of \<^verbatim>\<open>export_player_levels_to_csv\<close>\<close>

lemma find_key_unique:
  "distinct (map f xs) \<Longrightarrow> y \<in> set xs \<Longrightarrow> find (\<lambda>r. f r = f y) xs = Some y"
  by (induction xs) force+

lemma find_key_Some:
  "find (\<lambda>r. f r = k) xs = Some x \<Longrightarrow> x \<in> set xs \<and> f x = k"
  by (auto simp: find_Some_iff)

lemma prizes_of_level_Nil:
  "prizes_of_level s lid = [] \<longleftrightarrow> (\<forall>lp \<in> set (level_prizes s). lp_level_id lp \<noteq> lid)"
proof -
  have "prizes_of_level s lid = [] \<longleftrightarrow> set (prizes_of_level s lid) = {}"
    by simp
  then show ?thesis
    unfolding prizes_of_level_set by auto
qed

lemma prizes_of_level_head_least:
  assumes "prizes_of_level s lid = lp # lps"
  shows "lp \<in> set (level_prizes s) \<and> lp_level_id lp = lid
       \<and> (\<forall>lp' \<in> set (level_prizes s). lp_level_id lp' = lid \<longrightarrow> lp_prize_id lp \<le> lp_prize_id lp')"
proof -
  have "sorted (map lp_prize_id (prizes_of_level s lid))"
    unfolding prizes_of_level_def by (rule sorted_sort_key)
  with assms have le: "\<forall>x \<in> set (lp # lps). lp_prize_id lp \<le> lp_prize_id x"
    by auto
  have "set (lp # lps) = {lp \<in> set (level_prizes s). lp_level_id lp = lid}"
    using prizes_of_level_set [of s lid] assms by simp
  with le show ?thesis by auto
qed

lemma write_rows_all2:
  "write_rows s pls = Inr rows \<Longrightarrow> list_all2 (\<lambda>pl r. export_row_of s pl = Inr r) pls rows"
proof (induction pls arbitrary: rows)
  case Nil
  then show ?case by simp
next
  case (Cons pl pls)
  then show ?case
    by (auto split: sum.splits)
qed

lemma write_rows_returns:
  "\<forall>pl \<in> set pls. \<exists>r. export_row_of s pl = Inr r \<Longrightarrow> \<exists>rows. write_rows s pls = Inr rows"
proof (induction pls)
  case Nil
  then show ?case by simp
next
  case (Cons pl pls)
  then obtain r rows where "export_row_of s pl = Inr r" "write_rows s pls = Inr rows"
    by auto
  then show ?case by simp
qed

lemma level_exists_get_level:
  "level_exists s pl \<longleftrightarrow> get_level s (pl_level_id pl) \<noteq> None"
  by (auto simp: level_exists_def get_level_def list_ex_iff find_None_iff)

lemma level_exists_iff:
  "level_exists s pl \<longleftrightarrow> (\<exists>lv \<in> set (levels s). level_id lv = pl_level_id pl)"
  by (simp add: level_exists_def list_ex_iff)

lemma outerjoin_length: "length (outerjoin xs) = max 1 (length xs)"
  by (cases xs) (simp_all add: outerjoin_def)

lemma joined_prizes_length:
  assumes "distinct (map prize_id (prizes s))"
  shows "length (joined_prizes s lpo) = 1"
proof (cases lpo)
  case None
  then show ?thesis by (simp add: joined_prizes_def outerjoin_def)
next
  case (Some lp)
  from filter_key_le1 [OF assms, of "lp_prize_id lp"] Some show ?thesis
    by (auto simp: joined_prizes_def outerjoin_def)
qed

lemma export_query_rows:
  assumes pk: "primary_keys_unique s"
  shows "export_query s =
           concat (map (\<lambda>pl. replicate (rows_per_player_level s pl) pl) (player_levels s))"
proof -
  from pk have dp: "distinct (map prize_id (prizes s))" and dl: "distinct (map level_id (levels s))"
    by (simp_all add: primary_keys_unique_def)
  have one: "map (\<lambda>pro. pl) (joined_prizes s lpo) = [pl]" for pl :: player_level and lpo
    using joined_prizes_length [OF dp, of lpo] by (cases "joined_prizes s lpo") auto
  have per_level: "concat (map (\<lambda>lpo. map (\<lambda>pro. pl) (joined_prizes s lpo))
                     (outerjoin (prizes_of_level s i)))
      = replicate (max 1 (length (filter (\<lambda>lp. lp_level_id lp = i) (level_prizes s)))) pl"
    for pl :: player_level and i
    unfolding one by (simp add: map_replicate_const outerjoin_length prizes_of_level_length)
  have per_row: "concat (map (\<lambda>lv.
         concat (map (\<lambda>lpo. map (\<lambda>pro. pl) (joined_prizes s lpo))
                     (outerjoin (prizes_of_level s (level_id lv)))))
         (filter (\<lambda>lv. level_id lv = pl_level_id pl) (levels s)))
      = replicate (rows_per_player_level s pl) pl" for pl
  proof -
    from filter_key_le1 [OF dl, of "pl_level_id pl"]
    show ?thesis
    proof
      assume e: "filter (\<lambda>x. level_id x = pl_level_id pl) (levels s) = []"
      then have "\<not> level_exists s pl"
        by (auto simp: level_exists_def list_ex_iff filter_empty_conv)
      with e show ?thesis by (simp add: rows_per_player_level_def)
    next
      assume "\<exists>y. filter (\<lambda>x. level_id x = pl_level_id pl) (levels s) = [y]"
      then obtain lv where e: "filter (\<lambda>x. level_id x = pl_level_id pl) (levels s) = [lv]" ..
      then have "lv \<in> set (filter (\<lambda>x. level_id x = pl_level_id pl) (levels s))" by simp
      then have lv: "lv \<in> set (levels s)" "level_id lv = pl_level_id pl" by auto
      then have "level_exists s pl"
        by (auto simp: level_exists_def list_ex_iff)
      with e lv show ?thesis
        by (simp add: rows_per_player_level_def per_level)
    qed
  qed
  show ?thesis
    unfolding export_query_def per_row ..
qed

lemma outerjoin_nonempty: "outerjoin xs \<noteq> []"
  by (cases xs) (simp_all add: outerjoin_def)

lemma export_query_set:
  "set (export_query s) =
     {pl \<in> set (player_levels s). \<exists>lv \<in> set (levels s). level_id lv = pl_level_id pl}"
proof -
  have ne: "set (outerjoin xs) \<noteq> {}" for xs :: "'a list"
    using outerjoin_nonempty [of xs] by simp
  have jp: "set (joined_prizes s lpo) \<noteq> {}" for lpo
    unfolding joined_prizes_def by (rule ne)
  have inner: "(\<Union>lpo \<in> set (outerjoin (prizes_of_level s i)).
                  (\<lambda>pro. pl) ` set (joined_prizes s lpo)) = {pl}" for i and pl :: player_level
  proof -
    have "(\<lambda>pro. pl) ` set (joined_prizes s lpo) = {pl}" for lpo
      using jp [of lpo] by (simp add: image_constant_conv)
    then show ?thesis
      using ne [of "prizes_of_level s i"] by auto
  qed
  have "set (export_query s) =
          (\<Union>pl \<in> set (player_levels s).
             \<Union>lv \<in> {lv \<in> set (levels s). level_id lv = pl_level_id pl}. {pl})"
    unfolding export_query_def by (simp add: inner)
  also have "\<dots> = {pl \<in> set (player_levels s). \<exists>lv \<in> set (levels s). level_id lv = pl_level_id pl}"
    by auto
  finally show ?thesis .
qed

lemma concat_replicate_filter:
  "\<forall>x \<in> set xs. f x = (if P x then 1 else 0) \<Longrightarrow>
   concat (map (\<lambda>x. replicate (f x) x) xs) = filter P xs"
  by (induction xs) auto

lemma count_list_filter_distinct:
  "distinct xs \<Longrightarrow> count_list (filter P xs) x = (if x \<in> set xs \<and> P x then 1 else 0)"
  by (induction xs) auto

lemma export_row_of_Inr:
  assumes pk: "primary_keys_unique s" and row: "export_row_of s pl = Inr r"
  shows "row_player_id r = pl_player_id pl
       \<and> row_completed r = (completed pl \<noteq> None)
       \<and> (\<forall>lv \<in> set (levels s). level_id lv = pl_level_id pl \<longrightarrow>
            row_level_title r = level_title lv)
       \<and> ((\<forall>lp \<in> set (level_prizes s). lp_level_id lp \<noteq> pl_level_id pl) \<longrightarrow>
            row_prize_title r = [])
       \<and> (\<forall>lp \<in> set (level_prizes s).
            lp_level_id lp = pl_level_id pl
            \<and> (\<forall>lp' \<in> set (level_prizes s). lp_level_id lp' = pl_level_id pl \<longrightarrow>
                  lp_prize_id lp \<le> lp_prize_id lp') \<longrightarrow>
            (\<exists>pr \<in> set (prizes s). prize_id pr = lp_prize_id lp)
            \<and> (\<forall>pr \<in> set (prizes s). prize_id pr = lp_prize_id lp \<longrightarrow>
                  row_prize_title r = prize_title pr))"
proof -
  from pk have dp: "distinct (map prize_id (prizes s))" and dl: "distinct (map level_id (levels s))"
    by (simp_all add: primary_keys_unique_def)
  from row obtain lv0 where g: "get_level s (pl_level_id pl) = Some lv0"
    by (cases "get_level s (pl_level_id pl)") (simp_all add: export_row_of_def)
  then have lv0: "lv0 \<in> set (levels s)" "level_id lv0 = pl_level_id pl"
    unfolding get_level_def by (auto dest: find_key_Some)
  have title: "level_title lv = level_title lv0"
    if "lv \<in> set (levels s)" "level_id lv = pl_level_id pl" for lv
  proof -
    from find_key_unique [OF dl that(1)] that(2) g have "lv = lv0"
      by (simp add: get_level_def)
    then show ?thesis by simp
  qed
  show ?thesis
  proof (cases "prizes_of_level s (pl_level_id pl)")
    case Nil
    with row g lv0 have r: "r = \<lparr>row_player_id = pl_player_id pl, row_level_title = level_title lv0,
                       row_completed = (completed pl \<noteq> None), row_prize_title = []\<rparr>"
      by (simp add: export_row_of_def)
    from Nil have none: "\<forall>lp \<in> set (level_prizes s). lp_level_id lp \<noteq> pl_level_id pl"
      by (simp add: prizes_of_level_Nil)
    from r none title show ?thesis by auto
  next
    case (Cons lp0 lps)
    with row g lv0 obtain pr0 where gp: "get_prize s (lp_prize_id lp0) = Some pr0"
      by (cases "get_prize s (lp_prize_id lp0)") (simp_all add: export_row_of_def)
    with row g lv0 Cons have r: "r = \<lparr>row_player_id = pl_player_id pl,
        row_level_title = level_title lv0, row_completed = (completed pl \<noteq> None),
        row_prize_title = prize_title pr0\<rparr>"
      by (simp add: export_row_of_def)
    from gp have pr0: "pr0 \<in> set (prizes s)" "prize_id pr0 = lp_prize_id lp0"
      unfolding get_prize_def by (auto dest: find_key_Some)
    from prizes_of_level_head_least [OF Cons]
    have lp0: "lp0 \<in> set (level_prizes s)" "lp_level_id lp0 = pl_level_id pl"
      and least0: "\<forall>lp' \<in> set (level_prizes s). lp_level_id lp' = pl_level_id pl \<longrightarrow>
                     lp_prize_id lp0 \<le> lp_prize_id lp'"
      by simp_all
    have same: "lp_prize_id lp = lp_prize_id lp0"
      if "lp \<in> set (level_prizes s)" "lp_level_id lp = pl_level_id pl"
        "\<forall>lp' \<in> set (level_prizes s). lp_level_id lp' = pl_level_id pl \<longrightarrow>
           lp_prize_id lp \<le> lp_prize_id lp'" for lp
    proof -
      from that(3) lp0 have "lp_prize_id lp \<le> lp_prize_id lp0" by simp
      moreover from least0 that(1,2) have "lp_prize_id lp0 \<le> lp_prize_id lp" by simp
      ultimately show ?thesis by simp
    qed
    have uniq: "pr = pr0" if "pr \<in> set (prizes s)" "prize_id pr = lp_prize_id lp0" for pr
      using find_key_unique [OF dp that(1)] that(2) gp by (simp add: get_prize_def)
    have c3: "\<forall>lv \<in> set (levels s). level_id lv = pl_level_id pl \<longrightarrow>
            row_level_title r = level_title lv"
      using r title by simp
    have c4: "(\<forall>lp \<in> set (level_prizes s). lp_level_id lp \<noteq> pl_level_id pl) \<longrightarrow>
            row_prize_title r = []"
      using lp0 by blast
    have c5: "(\<exists>pr \<in> set (prizes s). prize_id pr = lp_prize_id lp)
            \<and> (\<forall>pr \<in> set (prizes s). prize_id pr = lp_prize_id lp \<longrightarrow>
                  row_prize_title r = prize_title pr)"
      if "lp \<in> set (level_prizes s)" and "lp_level_id lp = pl_level_id pl
            \<and> (\<forall>lp' \<in> set (level_prizes s). lp_level_id lp' = pl_level_id pl \<longrightarrow>
                  lp_prize_id lp \<le> lp_prize_id lp')" for lp
    proof -
      from same [OF that(1)] that(2) have e: "lp_prize_id lp = lp_prize_id lp0" by blast
      have "\<exists>pr \<in> set (prizes s). prize_id pr = lp_prize_id lp"
        using pr0 e by auto
      moreover have "\<forall>pr \<in> set (prizes s). prize_id pr = lp_prize_id lp \<longrightarrow>
                  row_prize_title r = prize_title pr"
        using uniq e r by auto
      ultimately show ?thesis ..
    qed
    have c12: "row_player_id r = pl_player_id pl \<and> row_completed r = (completed pl \<noteq> None)"
      using r by simp
    from c12 c3 c4 c5 show ?thesis by blast
  qed
qed


lemma export_row_of_returns:
  assumes fk: "level_prizes_reference_prizes s" and ex: "level_exists s pl"
  shows "\<exists>r. export_row_of s pl = Inr r"
proof -
  from ex obtain lv where lv: "get_level s (pl_level_id pl) = Some lv"
    by (auto simp: level_exists_get_level)
  show ?thesis
  proof (cases "prizes_of_level s (level_id lv)")
    case Nil
    with lv show ?thesis by (simp add: export_row_of_def)
  next
    case (Cons lp lps)
    then have "lp \<in> set (prizes_of_level s (level_id lv))" by simp
    then have "lp \<in> set (level_prizes s)" by (simp add: prizes_of_level_set)
    with fk have "get_prize s (lp_prize_id lp) \<noteq> None"
      by (auto simp: level_prizes_reference_prizes_def list_all_iff list_ex_iff get_prize_def
          find_None_iff)
    with lv Cons show ?thesis by (auto simp: export_row_of_def)
  qed
qed

lemma export_returns:
  assumes "level_prizes_reference_prizes s"
  shows "\<exists>rows. export_player_levels_to_csv s = Inr rows"
  unfolding export_player_levels_to_csv_def
proof (rule write_rows_returns, rule ballI)
  fix pl
  assume "pl \<in> set (export_query s)"
  then have "level_exists s pl"
    by (simp add: export_query_set level_exists_iff)
  with assms show "\<exists>r. export_row_of s pl = Inr r"
    by (rule export_row_of_returns)
qed

text \<open>
  Claim C4, as stated, fails in three ways. In the scenario the level has two
  associated prizes and the export hands two data rows to the writer for the one
  \<^verbatim>\<open>PlayerLevel\<close> row. When the only prize of the level has the empty title, the row's
  \<open>prize_title\<close> is empty although the level has one associated prize. When the
  \<^verbatim>\<open>PlayerLevel\<close> row names a level that is not in \<^verbatim>\<open>levels\<close>, the inner join drops it
  and no data row is written for it.
\<close>

theorem export_counterexample:
  "export_player_levels_to_csv scenario =
     Inr [\<lparr>row_player_id = 1, row_level_title = ''L'', row_completed = True, row_prize_title = ''X''\<rparr>,
          \<lparr>row_player_id = 1, row_level_title = ''L'', row_completed = True, row_prize_title = ''X''\<rparr>]
   \<and> length (player_levels scenario) = 1
   \<and> export_player_levels_to_csv scenario_untitled =
     Inr [\<lparr>row_player_id = 1, row_level_title = ''L'', row_completed = True, row_prize_title = []\<rparr>]
   \<and> length (filter (\<lambda>lp. lp_level_id lp = 3) (level_prizes scenario_untitled)) = 1
   \<and> export_player_levels_to_csv scenario_dangling = Inr []
   \<and> length (player_levels scenario_dangling) = 1"
  by (simp add: export_player_levels_to_csv_def export_query_def export_row_of_def
      prizes_of_level_def joined_prizes_def outerjoin_def get_level_def get_prize_def
      scenario_untitled_def scenario_dangling_def scenario_def)

text \<open>
  Claim C4, amended. In a store with unique primary keys, whenever the export returns,
  a row's \<open>prize_title\<close> is the empty string if and only if the row's level has no
  associated prize or the prize that the export takes for the level, the one with the
  least \<open>prize_id\<close> among the associated, has the empty string as its title. When, in
  addition, no level of a \<^verbatim>\<open>PlayerLevel\<close> row has more than one associated prize, the
  export writes exactly one data row per \<^verbatim>\<open>PlayerLevel\<close> row whose level exists and none
  for the others, so that the number of data rows is the number of \<^verbatim>\<open>PlayerLevel\<close>
  rows when each of them names an existing level. Nothing is said about the number of
  rows for a level with several associated prizes.
\<close>

theorem export_one_row_per_player_level:
  assumes pk: "primary_keys_unique s"
    and ret: "export_player_levels_to_csv s = Inr rows"
  shows "(at_most_one_prize_per_level s \<longrightarrow>
            (\<forall>pl. count_list (export_query s) pl =
                    (if pl \<in> set (player_levels s) \<and> level_exists s pl then 1 else 0))
          \<and> length rows = length (filter (level_exists s) (player_levels s))
          \<and> (list_all (level_exists s) (player_levels s) \<longrightarrow>
                length rows = length (player_levels s)))
       \<and> list_all2 (\<lambda>pl r. row_prize_title r = [] \<longleftrightarrow>
                       (\<forall>lp \<in> set (level_prizes s). lp_level_id lp \<noteq> pl_level_id pl)
                     \<or> (\<exists>lp \<in> set (level_prizes s).
                          lp_level_id lp = pl_level_id pl
                          \<and> (\<forall>lp' \<in> set (level_prizes s).
                                lp_level_id lp' = pl_level_id pl \<longrightarrow>
                                lp_prize_id lp \<le> lp_prize_id lp')
                          \<and> (\<exists>pr \<in> set (prizes s).
                                prize_id pr = lp_prize_id lp \<and> prize_title pr = [])))
            (export_query s) rows"
proof -
  from ret have all2: "list_all2 (\<lambda>pl r. export_row_of s pl = Inr r) (export_query s) rows"
    unfolding export_player_levels_to_csv_def by (rule write_rows_all2)
  then have len: "length rows = length (export_query s)"
    by (simp add: list_all2_lengthD)
  have count: "(\<forall>pl. count_list (export_query s) pl =
                    (if pl \<in> set (player_levels s) \<and> level_exists s pl then 1 else 0))
          \<and> length rows = length (filter (level_exists s) (player_levels s))
          \<and> (list_all (level_exists s) (player_levels s) \<longrightarrow>
                length rows = length (player_levels s))"
    if one: "at_most_one_prize_per_level s"
  proof -
    have "\<forall>pl \<in> set (player_levels s).
            rows_per_player_level s pl = (if level_exists s pl then 1 else 0)"
      using one
      by (auto simp: at_most_one_prize_per_level_def list_all_iff rows_per_player_level_def)
    then have q: "export_query s = filter (level_exists s) (player_levels s)"
      unfolding export_query_rows [OF pk] by (rule concat_replicate_filter)
    from pk have "distinct (map pl_key (player_levels s))"
      by (simp add: primary_keys_unique_def)
    then have "distinct (player_levels s)"
      by (simp add: distinct_map)
    then have c: "count_list (export_query s) pl =
                    (if pl \<in> set (player_levels s) \<and> level_exists s pl then 1 else 0)" for pl
      unfolding q by (rule count_list_filter_distinct)
    have "filter (level_exists s) (player_levels s) = player_levels s"
      if "list_all (level_exists s) (player_levels s)"
      using that by (simp add: list_all_iff filter_id_conv)
    with q len c show ?thesis by simp
  qed
  have titles: "list_all2 (\<lambda>pl r. row_prize_title r = [] \<longleftrightarrow>
                       (\<forall>lp \<in> set (level_prizes s). lp_level_id lp \<noteq> pl_level_id pl)
                     \<or> (\<exists>lp \<in> set (level_prizes s).
                          lp_level_id lp = pl_level_id pl
                          \<and> (\<forall>lp' \<in> set (level_prizes s).
                                lp_level_id lp' = pl_level_id pl \<longrightarrow>
                                lp_prize_id lp \<le> lp_prize_id lp')
                          \<and> (\<exists>pr \<in> set (prizes s).
                                prize_id pr = lp_prize_id lp \<and> prize_title pr = [])))
            (export_query s) rows"
    using all2
  proof (rule list_all2_mono)
    fix pl r
    assume row: "export_row_of s pl = Inr r"
    let ?none = "\<forall>lp \<in> set (level_prizes s). lp_level_id lp \<noteq> pl_level_id pl"
    let ?least = "\<lambda>lp. lp_level_id lp = pl_level_id pl
                    \<and> (\<forall>lp' \<in> set (level_prizes s). lp_level_id lp' = pl_level_id pl \<longrightarrow>
                          lp_prize_id lp \<le> lp_prize_id lp')"
    from export_row_of_Inr [OF pk row]
    have none: "?none \<longrightarrow> row_prize_title r = []"
      and least: "\<forall>lp \<in> set (level_prizes s). ?least lp \<longrightarrow>
            (\<exists>pr \<in> set (prizes s). prize_id pr = lp_prize_id lp)
            \<and> (\<forall>pr \<in> set (prizes s). prize_id pr = lp_prize_id lp \<longrightarrow>
                  row_prize_title r = prize_title pr)"
      by blast+
    have ex_least: "\<exists>lp \<in> set (level_prizes s). ?least lp" if "\<not> ?none"
    proof (cases "prizes_of_level s (pl_level_id pl)")
      case Nil
      with that show ?thesis by (simp add: prizes_of_level_Nil)
    next
      case (Cons lp0 lps)
      from prizes_of_level_head_least [OF this] show ?thesis by blast
    qed
    have "row_prize_title r = [] \<longleftrightarrow>
            ?none \<or> (\<exists>lp \<in> set (level_prizes s). ?least lp
                       \<and> (\<exists>pr \<in> set (prizes s).
                             prize_id pr = lp_prize_id lp \<and> prize_title pr = []))"
    proof
      assume e: "row_prize_title r = []"
      show "?none \<or> (\<exists>lp \<in> set (level_prizes s). ?least lp
                       \<and> (\<exists>pr \<in> set (prizes s).
                             prize_id pr = lp_prize_id lp \<and> prize_title pr = []))"
      proof (cases ?none)
        case True
        then show ?thesis ..
      next
        case False
        from ex_least [OF False] obtain lp where lp: "lp \<in> set (level_prizes s)" "?least lp"
          by blast
        with least obtain pr where pr: "pr \<in> set (prizes s)" "prize_id pr = lp_prize_id lp"
          by blast
        with least lp have "row_prize_title r = prize_title pr" by blast
        with e pr lp show ?thesis by auto
      qed
    next
      assume "?none \<or> (\<exists>lp \<in> set (level_prizes s). ?least lp
                       \<and> (\<exists>pr \<in> set (prizes s).
                             prize_id pr = lp_prize_id lp \<and> prize_title pr = []))"
      then show "row_prize_title r = []"
      proof
        assume ?none
        with none show ?thesis by blast
      next
        assume "\<exists>lp \<in> set (level_prizes s). ?least lp
                       \<and> (\<exists>pr \<in> set (prizes s).
                             prize_id pr = lp_prize_id lp \<and> prize_title pr = [])"
        then obtain lp pr where "lp \<in> set (level_prizes s)" "?least lp"
          "pr \<in> set (prizes s)" "prize_id pr = lp_prize_id lp" "prize_title pr = []"
          by blast
        with least show ?thesis by metis
      qed
    qed
    then show "row_prize_title r = [] \<longleftrightarrow>
                       (\<forall>lp \<in> set (level_prizes s). lp_level_id lp \<noteq> pl_level_id pl)
                     \<or> (\<exists>lp \<in> set (level_prizes s).
                          lp_level_id lp = pl_level_id pl
                          \<and> (\<forall>lp' \<in> set (level_prizes s).
                                lp_level_id lp' = pl_level_id pl \<longrightarrow>
                                lp_prize_id lp \<le> lp_prize_id lp')
                          \<and> (\<exists>pr \<in> set (prizes s).
                                prize_id pr = lp_prize_id lp \<and> prize_title pr = []))"
      by (simp only: conj_assoc)
  qed
  from count titles show ?thesis by blast
qed


theorem export_one_row_per_player_level_witness:
  "primary_keys_unique scenario_untitled
   \<and> export_player_levels_to_csv scenario_untitled =
     Inr [\<lparr>row_player_id = 1, row_level_title = ''L'', row_completed = True, row_prize_title = []\<rparr>]
   \<and> at_most_one_prize_per_level scenario_untitled
   \<and> list_all (level_exists scenario_untitled) (player_levels scenario_untitled)
   \<and> length (player_levels scenario_untitled) = 1
   \<and> count_list (export_query scenario_untitled)
        \<lparr>pl_player_id = 1, pl_level_id = 3, completed = Some t0, score = 100\<rparr> = 1"
proof -
  have pk: "primary_keys_unique scenario_untitled"
    by (simp add: primary_keys_unique_def scenario_untitled_def scenario_def pl_key_def lp_key_def)
  have h: "export_player_levels_to_csv scenario_untitled =
     Inr [\<lparr>row_player_id = 1, row_level_title = ''L'', row_completed = True, row_prize_title = []\<rparr>]"
    by (simp add: export_player_levels_to_csv_def export_query_def export_row_of_def
        prizes_of_level_def joined_prizes_def outerjoin_def get_level_def get_prize_def
        scenario_untitled_def scenario_def)
  have one: "at_most_one_prize_per_level scenario_untitled"
    by (simp add: at_most_one_prize_per_level_def scenario_untitled_def scenario_def)
  have ex: "list_all (level_exists scenario_untitled) (player_levels scenario_untitled)"
    by (simp add: level_exists_def scenario_untitled_def scenario_def)
  have l: "player_levels scenario_untitled =
             [\<lparr>pl_player_id = 1, pl_level_id = 3, completed = Some t0, score = 100\<rparr>]"
    by (simp add: scenario_untitled_def scenario_def)
  from export_one_row_per_player_level [OF pk h] pk h one ex l show ?thesis
    by simp
qed

text \<open>
  Claim C7, as stated, fails: with the association to prize 5 (title \<open>Y\<close>) inserted
  before the association to prize 4 (title \<open>X\<close>), the export writes \<open>X\<close>, the title of
  the prize with the lesser id, not the title of the prize associated first.
\<close>

theorem export_first_inserted_prize_counterexample:
  "level_prizes scenario_reversed =
     [\<lparr>lp_level_id = 3, lp_prize_id = 5\<rparr>, \<lparr>lp_level_id = 3, lp_prize_id = 4\<rparr>]
   \<and> get_prize scenario_reversed 5 = Some \<lparr>prize_id = 5, prize_title = ''Y''\<rparr>
   \<and> export_player_levels_to_csv scenario_reversed =
     Inr [\<lparr>row_player_id = 1, row_level_title = ''L'', row_completed = True, row_prize_title = ''X''\<rparr>,
          \<lparr>row_player_id = 1, row_level_title = ''L'', row_completed = True, row_prize_title = ''X''\<rparr>]"
  by (simp add: export_player_levels_to_csv_def export_query_def export_row_of_def
      prizes_of_level_def joined_prizes_def outerjoin_def get_level_def get_prize_def
      scenario_reversed_def scenario_def)

text \<open>
  Claim C7, amended. In a store with unique primary keys the export returns when every
  \<^verbatim>\<open>LevelPrize\<close> row names an existing prize, and whenever it returns, the
  \<^verbatim>\<open>PlayerLevel\<close> rows it writes rows for are those whose level exists, and each data
  row carries the player id of its \<^verbatim>\<open>PlayerLevel\<close> row and the title of its level, has
  \<open>completed\<close> true exactly when the completion timestamp is set, has the empty
  \<open>prize_title\<close> when the level has no associated prize, and, when the level has one
  or several associated prizes, has as \<open>prize_title\<close> the title of the associated
  prize with the least \<open>prize_id\<close>: the first in the order of the primary key, in which
  the unordered relationship is loaded, not the first inserted.
\<close>

theorem export_rows_completed_and_least_prize:
  assumes pk: "primary_keys_unique s"
  shows "(level_prizes_reference_prizes s \<longrightarrow>
            (\<exists>rows. export_player_levels_to_csv s = Inr rows))
       \<and> (\<forall>rows. export_player_levels_to_csv s = Inr rows \<longrightarrow>
            set (export_query s) =
              {pl \<in> set (player_levels s). \<exists>lv \<in> set (levels s). level_id lv = pl_level_id pl}
          \<and> list_all2 (\<lambda>pl r.
                 row_player_id r = pl_player_id pl
               \<and> row_completed r = (completed pl \<noteq> None)
               \<and> (\<forall>lv \<in> set (levels s). level_id lv = pl_level_id pl \<longrightarrow>
                    row_level_title r = level_title lv)
               \<and> ((\<forall>lp \<in> set (level_prizes s). lp_level_id lp \<noteq> pl_level_id pl) \<longrightarrow>
                    row_prize_title r = [])
               \<and> (\<forall>lp \<in> set (level_prizes s).
                    lp_level_id lp = pl_level_id pl
                    \<and> (\<forall>lp' \<in> set (level_prizes s). lp_level_id lp' = pl_level_id pl \<longrightarrow>
                          lp_prize_id lp \<le> lp_prize_id lp') \<longrightarrow>
                    (\<exists>pr \<in> set (prizes s). prize_id pr = lp_prize_id lp)
                    \<and> (\<forall>pr \<in> set (prizes s). prize_id pr = lp_prize_id lp \<longrightarrow>
                          row_prize_title r = prize_title pr)))
              (export_query s) rows)"
proof (intro conjI impI allI)
  assume "level_prizes_reference_prizes s"
  then show "\<exists>rows. export_player_levels_to_csv s = Inr rows"
    by (rule export_returns)
next
  fix rows
  show "set (export_query s) =
          {pl \<in> set (player_levels s). \<exists>lv \<in> set (levels s). level_id lv = pl_level_id pl}"
    by (rule export_query_set)
next
  fix rows
  assume "export_player_levels_to_csv s = Inr rows"
  then have "list_all2 (\<lambda>pl r. export_row_of s pl = Inr r) (export_query s) rows"
    unfolding export_player_levels_to_csv_def by (rule write_rows_all2)
  then show "list_all2 (\<lambda>pl r.
                 row_player_id r = pl_player_id pl
               \<and> row_completed r = (completed pl \<noteq> None)
               \<and> (\<forall>lv \<in> set (levels s). level_id lv = pl_level_id pl \<longrightarrow>
                    row_level_title r = level_title lv)
               \<and> ((\<forall>lp \<in> set (level_prizes s). lp_level_id lp \<noteq> pl_level_id pl) \<longrightarrow>
                    row_prize_title r = [])
               \<and> (\<forall>lp \<in> set (level_prizes s).
                    lp_level_id lp = pl_level_id pl
                    \<and> (\<forall>lp' \<in> set (level_prizes s). lp_level_id lp' = pl_level_id pl \<longrightarrow>
                          lp_prize_id lp \<le> lp_prize_id lp') \<longrightarrow>
                    (\<exists>pr \<in> set (prizes s). prize_id pr = lp_prize_id lp)
                    \<and> (\<forall>pr \<in> set (prizes s). prize_id pr = lp_prize_id lp \<longrightarrow>
                          row_prize_title r = prize_title pr)))
              (export_query s) rows"
  proof (rule list_all2_mono)
    fix pl r
    assume "export_row_of s pl = Inr r"
    with pk show "row_player_id r = pl_player_id pl
               \<and> row_completed r = (completed pl \<noteq> None)
               \<and> (\<forall>lv \<in> set (levels s). level_id lv = pl_level_id pl \<longrightarrow>
                    row_level_title r = level_title lv)
               \<and> ((\<forall>lp \<in> set (level_prizes s). lp_level_id lp \<noteq> pl_level_id pl) \<longrightarrow>
                    row_prize_title r = [])
               \<and> (\<forall>lp \<in> set (level_prizes s).
                    lp_level_id lp = pl_level_id pl
                    \<and> (\<forall>lp' \<in> set (level_prizes s). lp_level_id lp' = pl_level_id pl \<longrightarrow>
                          lp_prize_id lp \<le> lp_prize_id lp') \<longrightarrow>
                    (\<exists>pr \<in> set (prizes s). prize_id pr = lp_prize_id lp)
                    \<and> (\<forall>pr \<in> set (prizes s). prize_id pr = lp_prize_id lp \<longrightarrow>
                          row_prize_title r = prize_title pr))"
      by (rule export_row_of_Inr)
  qed
qed

theorem export_rows_completed_and_least_prize_witness:
  "primary_keys_unique scenario_reversed
   \<and> level_prizes_reference_prizes scenario_reversed
   \<and> level_prizes scenario_reversed =
       [\<lparr>lp_level_id = 3, lp_prize_id = 5\<rparr>, \<lparr>lp_level_id = 3, lp_prize_id = 4\<rparr>]
   \<and> prizes scenario_reversed =
       [\<lparr>prize_id = 4, prize_title = ''X''\<rparr>, \<lparr>prize_id = 5, prize_title = ''Y''\<rparr>]
   \<and> export_player_levels_to_csv scenario_reversed =
     Inr [\<lparr>row_player_id = 1, row_level_title = ''L'', row_completed = True, row_prize_title = ''X''\<rparr>,
          \<lparr>row_player_id = 1, row_level_title = ''L'', row_completed = True, row_prize_title = ''X''\<rparr>]
   \<and> set (export_query scenario_reversed) =
       {\<lparr>pl_player_id = 1, pl_level_id = 3, completed = Some t0, score = 100\<rparr>}"
proof -
  have pk: "primary_keys_unique scenario_reversed"
    by (simp add: primary_keys_unique_def scenario_reversed_def scenario_def pl_key_def lp_key_def)
  have fk: "level_prizes_reference_prizes scenario_reversed"
    by (simp add: level_prizes_reference_prizes_def scenario_reversed_def scenario_def)
  have a: "level_prizes scenario_reversed =
       [\<lparr>lp_level_id = 3, lp_prize_id = 5\<rparr>, \<lparr>lp_level_id = 3, lp_prize_id = 4\<rparr>]"
    by (simp add: scenario_reversed_def scenario_def)
  have b: "prizes scenario_reversed =
       [\<lparr>prize_id = 4, prize_title = ''X''\<rparr>, \<lparr>prize_id = 5, prize_title = ''Y''\<rparr>]"
    by (simp add: scenario_reversed_def scenario_def)
  have e: "export_player_levels_to_csv scenario_reversed =
     Inr [\<lparr>row_player_id = 1, row_level_title = ''L'', row_completed = True, row_prize_title = ''X''\<rparr>,
          \<lparr>row_player_id = 1, row_level_title = ''L'', row_completed = True, row_prize_title = ''X''\<rparr>]"
    by (simp add: export_player_levels_to_csv_def export_query_def export_row_of_def
        prizes_of_level_def joined_prizes_def outerjoin_def get_level_def get_prize_def
        scenario_reversed_def scenario_def)
  have q: "set (export_query scenario_reversed) =
       {\<lparr>pl_player_id = 1, pl_level_id = 3, completed = Some t0, score = 100\<rparr>}"
    by (simp add: export_query_def prizes_of_level_def joined_prizes_def outerjoin_def
        scenario_reversed_def scenario_def)
  from export_rows_completed_and_least_prize [OF pk] pk fk a b e q show ?thesis
    by simp
qed

end
